theory Spec2Isabelle
  imports Complex_Main "HOL-Library.AList"
begin

section \<open>Endpoint monitor: data model\<close>

text \<open>
  The program is \<^verbatim>\<open>src/main.py\<close>. A Python \<^verbatim>\<open>dict\<close> is an association list with
  distinct keys in insertion order: \<^const>\<open>AList.update\<close> overwrites a present key in place and
  appends an absent one, \<^const>\<open>AList.delete\<close> is \<^verbatim>\<open>del d[k]\<close>, \<^const>\<open>map_of\<close> is the lookup.
  A Python \<^verbatim>\<open>set\<close> of names is a HOL set. Python integers are \<^typ>\<open>int\<close>. Times
  (\<^verbatim>\<open>os.path.getmtime\<close>, \<^verbatim>\<open>time.monotonic\<close>) are only compared, so they are rationals.
\<close>

type_synonym ('k, 'v) dict = "('k \<times> 'v) list"

text \<open>\<^verbatim>\<open>self.stats = {"up": 0, "total": 0}\<close>, and the values of \<^verbatim>\<open>domain_stats\<close>.\<close>

record stats =
  up :: int
  total :: int

definition zero_stats :: stats where
  "zero_stats = \<lparr>up = 0, total = 0\<rparr>"

text \<open>The attributes set by \<^verbatim>\<open>EndpointConfig.__init__\<close>; \<^verbatim>\<open>self.method\<close> is the field \<open>http_method\<close>.\<close>

record EndpointConfig =
  name :: string
  url :: string
  http_method :: string
  headers :: "(string, string) dict"
  body :: "string option"
  file_path :: string
  domain :: string
  stats :: stats

subsection \<open>\<^verbatim>\<open>EndpointConfig.get_domain\<close>\<close>

text \<open>
  \<^verbatim>\<open>urlparse(url).netloc\<close>, after \<^verbatim>\<open>urllib.parse.urlsplit\<close>: a scheme is split off when the
  text before the first colon is non-empty, starts with an ASCII letter and consists of scheme
  characters; if what follows starts with \<^verbatim>\<open>//\<close>, the netloc runs from there to the first of
  \<^verbatim>\<open>/\<close>, \<^verbatim>\<open>?\<close>, \<^verbatim>\<open>#\<close>. The library's stripping of control characters and its check of square
  brackets are left out.
\<close>

definition ascii_letters :: string where
  "ascii_letters = ''abcdefghijklmnopqrstuvwxyzABCDEFGHIJKLMNOPQRSTUVWXYZ''"

definition scheme_chars :: string where
  "scheme_chars = ascii_letters @ ''0123456789+-.''"

definition after_scheme :: "string \<Rightarrow> string" where
  "after_scheme u =
     (let pre = takeWhile (\<lambda>c. c \<noteq> CHR '':'') u in
      if pre \<noteq> [] \<and> length pre < length u \<and> hd u \<in> set ascii_letters
         \<and> list_all (\<lambda>c. c \<in> set scheme_chars) pre
      then drop (length pre + 1) u else u)"

definition netloc :: "string \<Rightarrow> string" where
  "netloc u =
     (let r = after_scheme u in
      if take 2 r = ''//''
      then takeWhile (\<lambda>c. c \<noteq> CHR ''/'' \<and> c \<noteq> CHR ''?'' \<and> c \<noteq> CHR ''#'') (drop 2 r)
      else [])"

text \<open>\<^verbatim>\<open>parsed_url.netloc.split(":")[0]\<close>: the netloc up to its first colon.\<close>

definition get_domain :: "string \<Rightarrow> string" where
  "get_domain u = takeWhile (\<lambda>c. c \<noteq> CHR '':'') (netloc u)"

text \<open>
  The host component of a netloc as \<^verbatim>\<open>urllib.parse\<close> itself defines it (\<^verbatim>\<open>hostname\<close>, without
  the lower-casing and without IPv6 literals): what follows the last \<^verbatim>\<open>@\<close>, up to the colon
  that starts the port. This is the reading of "host component, port stripped" that
  \<^const>\<open>get_domain\<close> is compared with.
\<close>

definition after_userinfo :: "string \<Rightarrow> string" where
  "after_userinfo n = rev (takeWhile (\<lambda>c. c \<noteq> CHR ''@'') (rev n))"

definition spec_host :: "string \<Rightarrow> string" where
  "spec_host u = takeWhile (\<lambda>c. c \<noteq> CHR '':'') (after_userinfo (netloc u))"

subsection \<open>\<^verbatim>\<open>EndpointConfig.update_stats\<close> and \<^verbatim>\<open>availability_percentage\<close>\<close>

datatype health = UP | DOWN

definition update_stats :: "health \<Rightarrow> EndpointConfig \<Rightarrow> EndpointConfig" where
  "update_stats result e =
     (let s = (stats e)\<lparr>total := total (stats e) + 1\<rparr> in
      e\<lparr>stats := (if result = UP then s\<lparr>up := up s + 1\<rparr> else s)\<rparr>)"

text \<open>
  Python's \<^verbatim>\<open>round\<close> of a float with one argument: the nearest integer, a tie going to the even
  one. The quotient \<^verbatim>\<open>100 * up / total\<close> is taken exactly here; Python rounds it to a double
  first, which gives the same integer as long as \<^verbatim>\<open>total\<close> is below \<^verbatim>\<open>2 ** 46\<close> (a quotient
  that is not a tie is then further from the tie than the double's rounding error).
\<close>

definition py_round :: "rat \<Rightarrow> int" where
  "py_round q =
     (let f = \<lfloor>q\<rfloor>; r = q - of_int f in
      if r < 1 / 2 then f else if 1 / 2 < r then f + 1 else if even f then f else f + 1)"


section \<open>\<^verbatim>\<open>ConfigLoader\<close>\<close>

subsection \<open>The files the loader reads\<close>

text \<open>
  The exceptions that matter in this program. \<^verbatim>\<open>except Exception\<close> in \<^verbatim>\<open>check_health\<close>
  catches each of them; \<^verbatim>\<open>_load_file\<close> catches \<^verbatim>\<open>FileNotFoundError\<close> and
  \<^verbatim>\<open>yaml.YAMLError\<close> only.
\<close>

datatype exn = FileNotFoundError | YAMLError | PermissionError | TypeError | ZeroDivisionError
  | ClientError | TimeoutError

text \<open>
  One mapping of the YAML sequence, with the keys \<^verbatim>\<open>EndpointConfig.__init__\<close> accepts; an
  absent key is \<^const>\<open>None\<close>.
\<close>

record decl =
  d_name :: "string option"
  d_url :: "string option"
  d_method :: "string option"
  d_headers :: "(string, string) dict option"
  d_body :: "string option"

text \<open>
  What \<^verbatim>\<open>open\<close> and \<^verbatim>\<open>yaml.safe_load\<close> make of a file that exists: \<^verbatim>\<open>open\<close> raises
  \<^verbatim>\<open>PermissionError\<close>, \<^verbatim>\<open>safe_load\<close> raises \<^verbatim>\<open>YAMLError\<close>, or the document is a sequence
  of mappings.
\<close>

datatype content = Unreadable | Malformed | Document "decl list"

record yaml_file =
  mtime :: rat
  content :: content

text \<open>
  The file system as one call of \<^verbatim>\<open>load_configs\<close> or \<^verbatim>\<open>refresh\<close> sees it: what
  \<^verbatim>\<open>self.path\<close> is (\<^verbatim>\<open>os.path.isdir\<close> with the names \<^verbatim>\<open>os.listdir\<close> returns, or
  \<^verbatim>\<open>os.path.isfile\<close>), and the file behind each path, \<^const>\<open>None\<close> where
  \<^verbatim>\<open>os.path.exists\<close> is false and \<^verbatim>\<open>os.path.getmtime\<close> raises \<^verbatim>\<open>FileNotFoundError\<close>.
\<close>

datatype path_kind = Directory "string list" | RegularFile | NoSuchPath

record env =
  path_kind :: path_kind
  files :: "string \<Rightarrow> yaml_file option"

text \<open>\<^verbatim>\<open>str.upper\<close> on ASCII letters.\<close>

definition upper_char :: "char \<Rightarrow> char" where
  "upper_char c =
     (case map_of (zip ''abcdefghijklmnopqrstuvwxyz'' ''ABCDEFGHIJKLMNOPQRSTUVWXYZ'') c of
        Some C \<Rightarrow> C | None \<Rightarrow> c)"

definition upper :: "string \<Rightarrow> string" where
  "upper s = map upper_char s"

text \<open>
  \<^verbatim>\<open>EndpointConfig(**{**ep, "file_path": file_path})\<close>: a missing \<^verbatim>\<open>name\<close> or \<^verbatim>\<open>url\<close> is a
  missing positional argument, a \<^verbatim>\<open>TypeError\<close>; \<^verbatim>\<open>method\<close> defaults to \<^verbatim>\<open>"GET"\<close> and is
  upper-cased, \<^verbatim>\<open>headers\<close> defaults to the empty dict, and the statistics start at zero.
\<close>

definition make_endpoint :: "string \<Rightarrow> decl \<Rightarrow> exn + EndpointConfig" where
  "make_endpoint fp d =
     (case d_name d of
        None \<Rightarrow> Inl TypeError
      | Some n \<Rightarrow>
          (case d_url d of
             None \<Rightarrow> Inl TypeError
           | Some u \<Rightarrow>
               Inr \<lparr>name = n, url = u,
                    http_method = upper (case d_method d of None \<Rightarrow> ''GET'' | Some m \<Rightarrow> m),
                    headers = (case d_headers d of None \<Rightarrow> [] | Some h \<Rightarrow> h),
                    body = d_body d, file_path = fp, domain = get_domain u,
                    stats = zero_stats\<rparr>))"

subsection \<open>The loader's state and its operations\<close>

record ConfigLoader =
  path :: string
  endpoints :: "(string, EndpointConfig) dict"
  file_endpoints :: "(string, string set) dict"
  mod_times :: "(string, rat) dict"

text \<open>
  A function that raises returns the exception together with the state as the in-place
  mutations left it: \<open>(Some e, cl)\<close>; a normal return is \<open>(None, cl)\<close>.
\<close>

type_synonym 'a outcome = "exn option \<times> 'a"

text \<open>\<^verbatim>\<open>for name in names: if name in self.endpoints: del self.endpoints[name]\<close>.\<close>

definition del_names :: "string set \<Rightarrow> (string, 'v) dict \<Rightarrow> (string, 'v) dict" where
  "del_names names eps = filter (\<lambda>kv. fst kv \<notin> names) eps"

definition remove_file_endpoints :: "string \<Rightarrow> ConfigLoader \<Rightarrow> ConfigLoader" where
  "remove_file_endpoints fp cl =
     (case map_of (file_endpoints cl) fp of
        None \<Rightarrow> cl
      | Some names \<Rightarrow>
          cl\<lparr>endpoints := del_names names (endpoints cl),
             file_endpoints := AList.delete fp (file_endpoints cl),
             mod_times := AList.delete fp (mod_times cl)\<rparr>)"

text \<open>
  The loop \<^verbatim>\<open>for ep in config_data\<close> of \<^verbatim>\<open>_load_file\<close>, on the endpoint dict and the set
  \<^verbatim>\<open>current_file_endpoints\<close>. It stops at the first declaration the constructor rejects;
  the endpoints stored before that stay stored.
\<close>

fun load_decls ::
  "string \<Rightarrow> decl list \<Rightarrow> (string, EndpointConfig) dict \<Rightarrow> string set
    \<Rightarrow> exn option \<times> (string, EndpointConfig) dict \<times> string set" where
  "load_decls fp [] eps cur = (None, eps, cur)"
| "load_decls fp (d # ds) eps cur =
     (case make_endpoint fp d of
        Inl e \<Rightarrow> (Some e, eps, cur)
      | Inr ep \<Rightarrow> load_decls fp ds (AList.update (name ep) ep eps) (insert (name ep) cur))"

text \<open>The \<^verbatim>\<open>except (FileNotFoundError, yaml.YAMLError)\<close> clause of \<^verbatim>\<open>_load_file\<close>.\<close>

definition load_file_handler :: "string \<Rightarrow> ConfigLoader \<Rightarrow> ConfigLoader" where
  "load_file_handler fp cl =
     (if map_of (file_endpoints cl) fp \<noteq> None then remove_file_endpoints fp cl else cl)"

definition load_file :: "env \<Rightarrow> string \<Rightarrow> ConfigLoader \<Rightarrow> ConfigLoader outcome" where
  "load_file ev fp cl =
     (case files ev fp of
        None \<Rightarrow> (None, load_file_handler fp cl)
      | Some f \<Rightarrow>
          if map_of (mod_times cl) fp = Some (mtime f) then (None, cl)
          else
            (case content f of
               Unreadable \<Rightarrow> (Some PermissionError, cl)
             | Malformed \<Rightarrow> (None, load_file_handler fp cl)
             | Document ds \<Rightarrow>
                 (case load_decls fp ds (endpoints cl) {} of
                    (Some e, eps, cur) \<Rightarrow> (Some e, cl\<lparr>endpoints := eps\<rparr>)
                  | (None, eps, cur) \<Rightarrow>
                      (None,
                       cl\<lparr>endpoints :=
                            (case map_of (file_endpoints cl) fp of
                               None \<Rightarrow> eps
                             | Some old \<Rightarrow> del_names (old - cur) eps),
                          file_endpoints := AList.update fp cur (file_endpoints cl),
                          mod_times := AList.update fp (mtime f) (mod_times cl)\<rparr>))))"

text \<open>\<^verbatim>\<open>file_name.endswith(".yaml")\<close> and \<^verbatim>\<open>os.path.join\<close> of a directory and a file name.\<close>

definition endswith_yaml :: "string \<Rightarrow> bool" where
  "endswith_yaml s = (5 \<le> length s \<and> drop (length s - 5) s = ''.yaml'')"

definition join :: "string \<Rightarrow> string \<Rightarrow> string" where
  "join p n = (if p = [] \<or> last p = CHR ''/'' then p @ n else p @ ''/'' @ n)"

text \<open>The paths added to \<^verbatim>\<open>current_files\<close>, in the order of the loop.\<close>

definition config_files :: "env \<Rightarrow> string \<Rightarrow> string list" where
  "config_files ev p =
     (case path_kind ev of
        Directory names \<Rightarrow> map (join p) (filter endswith_yaml names)
      | RegularFile \<Rightarrow> (if endswith_yaml p then [p] else [])
      | NoSuchPath \<Rightarrow> [])"

text \<open>A loop that calls a loading step for each path and is left by the first exception.\<close>

fun for_files ::
  "(string \<Rightarrow> ConfigLoader \<Rightarrow> ConfigLoader outcome) \<Rightarrow> string list \<Rightarrow> ConfigLoader
    \<Rightarrow> ConfigLoader outcome" where
  "for_files step [] cl = (None, cl)"
| "for_files step (fp # fps) cl =
     (case step fp cl of
        (Some e, cl') \<Rightarrow> (Some e, cl')
      | (None, cl') \<Rightarrow> for_files step fps cl')"

text \<open>
  \<^verbatim>\<open>for file_path in list(self.file_endpoints.keys()): if ...: self._remove_file_endpoints(file_path)\<close>,
  over the keys as they were before the loop.
\<close>

definition remove_where :: "(string \<Rightarrow> bool) \<Rightarrow> ConfigLoader \<Rightarrow> ConfigLoader" where
  "remove_where gone cl =
     fold (\<lambda>fp c. if gone fp then remove_file_endpoints fp c else c)
       (map fst (file_endpoints cl)) cl"

definition load_configs :: "env \<Rightarrow> ConfigLoader \<Rightarrow> ConfigLoader outcome" where
  "load_configs ev cl =
     (let current_files = config_files ev (path cl) in
      case for_files (load_file ev) current_files cl of
        (Some e, cl') \<Rightarrow> (Some e, cl')
      | (None, cl') \<Rightarrow> (None, remove_where (\<lambda>fp. fp \<notin> set current_files) cl'))"

text \<open>\<^verbatim>\<open>ConfigLoader.__init__\<close>.\<close>

definition new_loader :: "string \<Rightarrow> ConfigLoader" where
  "new_loader p = \<lparr>path = p, endpoints = [], file_endpoints = [], mod_times = []\<rparr>"

definition init_loader :: "env \<Rightarrow> string \<Rightarrow> ConfigLoader outcome" where
  "init_loader ev p = load_configs ev (new_loader p)"

text \<open>The body of the loops of \<^verbatim>\<open>refresh\<close> for one path.\<close>

definition refresh_file :: "env \<Rightarrow> string \<Rightarrow> ConfigLoader \<Rightarrow> ConfigLoader outcome" where
  "refresh_file ev fp cl =
     (case files ev fp of
        None \<Rightarrow> (None, cl)
      | Some f \<Rightarrow>
          if map_of (mod_times cl) fp = None \<or> Some (mtime f) \<noteq> map_of (mod_times cl) fp
          then load_file ev fp cl else (None, cl))"

definition refresh :: "env \<Rightarrow> ConfigLoader \<Rightarrow> ConfigLoader outcome" where
  "refresh ev cl =
     (let current_files = config_files ev (path cl) in
      case for_files (refresh_file ev) current_files cl of
        (Some e, cl') \<Rightarrow> (Some e, cl')
      | (None, cl') \<Rightarrow>
          (None, remove_where (\<lambda>fp. fp \<notin> set current_files \<or> files ev fp = None) cl'))"

section \<open>\<^verbatim>\<open>check_health\<close>\<close>

text \<open>
  The request a probe sends. \<^verbatim>\<open>session.get(endpoint.url, timeout=1)\<close> is a GET of the URL
  with the session's default headers, no body and a timeout of one second.
\<close>

record request =
  req_method :: string
  req_url :: string
  req_headers :: "(string, string) dict"
  req_body :: "string option"
  req_timeout :: rat

definition probe_request :: "EndpointConfig \<Rightarrow> request" where
  "probe_request e =
     \<lparr>req_method = ''GET'', req_url = url e, req_headers = [], req_body = None, req_timeout = 1\<rparr>"

text \<open>
  What comes back: a response with its status and the time measured by \<^verbatim>\<open>time.monotonic\<close>,
  or an exception raised by \<^verbatim>\<open>session.get\<close> (a timeout, a connection failure). The network
  answers the request sent for the endpoint of a given name.
\<close>

datatype http_outcome = Response int rat | Raised exn

type_synonym net = "string \<Rightarrow> request \<Rightarrow> http_outcome"

text \<open>
  The three Prometheus metrics: the gauge \<^verbatim>\<open>endpoint_status\<close> by endpoint, the observations
  of \<^verbatim>\<open>endpoint_response_time_seconds\<close> by endpoint, and the counter
  \<^verbatim>\<open>endpoint_status_codes_total\<close> by endpoint and code.
\<close>

record metrics =
  STATUS :: "string \<Rightarrow> int option"
  RESPONSE_TIME :: "string \<Rightarrow> rat list"
  STATUS_CODES :: "string \<times> string \<Rightarrow> nat"

definition no_metrics :: metrics where
  "no_metrics = \<lparr>STATUS = (\<lambda>n. None), RESPONSE_TIME = (\<lambda>n. []), STATUS_CODES = (\<lambda>k. 0)\<rparr>"

definition set_status :: "string \<Rightarrow> int \<Rightarrow> metrics \<Rightarrow> metrics" where
  "set_status n v m = m\<lparr>STATUS := (STATUS m)(n \<mapsto> v)\<rparr>"

definition observe :: "string \<Rightarrow> rat \<Rightarrow> metrics \<Rightarrow> metrics" where
  "observe n t m = m\<lparr>RESPONSE_TIME := (RESPONSE_TIME m)(n := RESPONSE_TIME m n @ [t])\<rparr>"

definition inc_code :: "string \<Rightarrow> string \<Rightarrow> metrics \<Rightarrow> metrics" where
  "inc_code n c m = m\<lparr>STATUS_CODES := (STATUS_CODES m)((n, c) := STATUS_CODES m (n, c) + 1)\<rparr>"

text \<open>\<^verbatim>\<open>str\<close> of an integer, for the label \<^verbatim>\<open>str(response.status)\<close>.\<close>

definition digit_char :: "nat \<Rightarrow> char" where
  "digit_char n = ''0123456789'' ! n"

fun str_nat :: "nat \<Rightarrow> string" where
  "str_nat n = (if n < 10 then [digit_char n] else str_nat (n div 10) @ [digit_char (n mod 10)])"

declare str_nat.simps [simp del]

definition str_int :: "int \<Rightarrow> string" where
  "str_int i = (if i < 0 then CHR ''-'' # str_nat (nat (- i)) else str_nat (nat i))"

definition default_threshold :: rat where
  "default_threshold = 1 / 2"

text \<open>The body of the \<^verbatim>\<open>try\<close>: \<open>Inl\<close> is an exception on its way to the handler.\<close>

definition check_health_try ::
  "net \<Rightarrow> EndpointConfig \<Rightarrow> rat \<Rightarrow> metrics \<Rightarrow> exn + health \<times> metrics" where
  "check_health_try nt e response_time_threshold m =
     (case nt (name e) (probe_request e) of
        Raised x \<Rightarrow> Inl x
      | Response status elapsed_time \<Rightarrow>
          (let m1 = inc_code (name e) (str_int status) (observe (name e) elapsed_time m) in
           if 200 \<le> status \<and> status < 300 \<and> elapsed_time < response_time_threshold
           then Inr (UP, set_status (name e) 1 m1)
           else Inr (DOWN, set_status (name e) 0 m1)))"

text \<open>
  With the handler \<^verbatim>\<open>except Exception\<close>. The result is still a sum, so that an exception
  leaving \<^verbatim>\<open>check_health\<close> would be a value \<open>Inl\<close>.
\<close>

definition check_health ::
  "net \<Rightarrow> EndpointConfig \<Rightarrow> rat \<Rightarrow> metrics \<Rightarrow> exn + health \<times> metrics" where
  "check_health nt e response_time_threshold m =
     (case check_health_try nt e response_time_threshold m of
        Inr r \<Rightarrow> Inr r
      | Inl x \<Rightarrow> Inr (DOWN, inc_code (name e) ''error'' (set_status (name e) 0 m)))"

section \<open>\<^verbatim>\<open>monitor_endpoints\<close>\<close>

text \<open>
  \<^verbatim>\<open>clean_domains\<close>, on the global \<^verbatim>\<open>domain_stats\<close>: the keys outside the active domains
  are collected first, then deleted one by one.
\<close>

definition clean_domains ::
  "EndpointConfig list \<Rightarrow> (string, stats) dict \<Rightarrow> (string, stats) dict" where
  "clean_domains eps ds =
     (let active_domains = set (map domain eps);
          domains_to_remove = filter (\<lambda>d. d \<notin> active_domains) (map fst ds)
      in fold AList.delete domains_to_remove ds)"

text \<open>
  \<^verbatim>\<open>domain_stats[endpoint.domain]["total"] += 1\<close> and the conditional increment of
  \<^verbatim>\<open>"up"\<close>; \<^verbatim>\<open>domain_stats\<close> is a \<^verbatim>\<open>defaultdict\<close>, a missing key starts at zero.
\<close>

definition record_domain :: "string \<Rightarrow> health \<Rightarrow> (string, stats) dict \<Rightarrow> (string, stats) dict" where
  "record_domain d result ds =
     (let s0 = (case map_of ds d of None \<Rightarrow> zero_stats | Some s \<Rightarrow> s);
          s1 = s0\<lparr>total := total s0 + 1\<rparr>
      in AList.update d (if result = UP then s1\<lparr>up := up s1 + 1\<rparr> else s1) ds)"

text \<open>
  \<^verbatim>\<open>asyncio.gather\<close> of the probes: each probe touches the metrics of its own endpoint only,
  so the probes are run in the order of the endpoints; the results come in that order.
\<close>

fun gather ::
  "net \<Rightarrow> EndpointConfig list \<Rightarrow> metrics \<Rightarrow> exn + health list \<times> metrics" where
  "gather nt [] m = Inr ([], m)"
| "gather nt (e # es) m =
     (case check_health nt e default_threshold m of
        Inl x \<Rightarrow> Inl x
      | Inr (r, m') \<Rightarrow>
          (case gather nt es m' of
             Inl x \<Rightarrow> Inl x
           | Inr (rs, m'') \<Rightarrow> Inr (r # rs, m'')))"

text \<open>
  The loop over \<^verbatim>\<open>zip(endpoints, results)\<close>: the endpoint objects are updated where they
  are, in the loader's dict, and the domain statistics are updated.
\<close>

fun record_results ::
  "(string \<times> EndpointConfig) list \<Rightarrow> health list \<Rightarrow> (string, stats) dict
    \<Rightarrow> (string \<times> EndpointConfig) list \<times> (string, stats) dict" where
  "record_results ((k, e) # kes) (r # rs) ds =
     (let (kes', ds') = record_results kes rs (record_domain (domain e) r ds)
      in ((k, update_stats r e) # kes', ds'))"
| "record_results kes rs ds = (kes, ds)"

text \<open>
  The availability loop over \<^verbatim>\<open>domain_stats.items()\<close>: what is logged for each domain, or
  the \<^verbatim>\<open>ZeroDivisionError\<close> of \<^verbatim>\<open>100 * stats["up"] / stats["total"]\<close>.
\<close>

fun report :: "(string, stats) dict \<Rightarrow> exn + (string \<times> int) list" where
  "report [] = Inr []"
| "report ((d, s) # ds) =
     (if total s = 0 then Inl ZeroDivisionError
      else (case report ds of
              Inl x \<Rightarrow> Inl x
            | Inr lines \<Rightarrow> Inr ((d, py_round (of_int (100 * up s) / of_int (total s))) # lines)))"

text \<open>
  The state of \<^verbatim>\<open>monitor_endpoints\<close>: the loader, the global \<^verbatim>\<open>domain_stats\<close>, the
  metrics, the requests sent so far and the availability lines logged so far.
\<close>

record monitor =
  loader :: ConfigLoader
  domain_stats :: "(string, stats) dict"
  metrics :: metrics
  sent :: "request list"
  logged :: "(string \<times> int) list"

text \<open>What one cycle sees of the world: the file system and the network.\<close>

record world =
  fs :: env
  network :: net

text \<open>
  How an iteration of \<^verbatim>\<open>while True\<close> ends: it goes on to the next one after the sleep,
  the loop is left by \<^verbatim>\<open>break\<close>, or an exception leaves \<^verbatim>\<open>monitor_endpoints\<close>.
\<close>

datatype status = Running | Stopped | Crashed exn

definition cycle :: "world \<Rightarrow> monitor \<Rightarrow> status \<times> monitor" where
  "cycle w m =
     (case refresh (fs w) (loader m) of
        (Some x, cl) \<Rightarrow> (Crashed x, m\<lparr>loader := cl\<rparr>)
      | (None, cl) \<Rightarrow>
          if endpoints cl = [] then (Stopped, m\<lparr>loader := cl\<rparr>)
          else
            (let eps = map snd (endpoints cl);
                 ds = clean_domains eps (domain_stats m);
                 m1 = m\<lparr>loader := cl, domain_stats := ds, sent := sent m @ map probe_request eps\<rparr>
             in case gather (network w) eps (metrics m) of
                  Inl x \<Rightarrow> (Crashed x, m1)
                | Inr (results, mt) \<Rightarrow>
                    (let (kes, ds') = record_results (endpoints cl) results ds;
                         m2 = m1\<lparr>loader := cl\<lparr>endpoints := kes\<rparr>, domain_stats := ds',
                                 metrics := mt\<rparr>
                     in case report ds' of
                          Inl x \<Rightarrow> (Crashed x, m2)
                        | Inr lines \<Rightarrow> (Running, m2\<lparr>logged := logged m2 @ lines\<rparr>))))"

text \<open>
  The \<^verbatim>\<open>while True\<close> loop, one world per iteration. The loop can run for ever; a run on a
  finite list of worlds that uses them all up is still \<^const>\<open>Running\<close>.
\<close>

fun monitor_loop :: "world list \<Rightarrow> monitor \<Rightarrow> status \<times> monitor" where
  "monitor_loop [] m = (Running, m)"
| "monitor_loop (w # ws) m =
     (case cycle w m of
        (Running, m') \<Rightarrow> monitor_loop ws m'
      | (Stopped, m') \<Rightarrow> (Stopped, m')
      | (Crashed x, m') \<Rightarrow> (Crashed x, m'))"

text \<open>
  \<^verbatim>\<open>monitor_endpoints(file_path, interval)\<close>, on the file system at start-up and the worlds
  of the iterations; \<^verbatim>\<open>domain_stats\<close> and the metrics are empty when the module is loaded.
\<close>

definition monitor_endpoints :: "env \<Rightarrow> world list \<Rightarrow> string \<Rightarrow> status \<times> monitor" where
  "monitor_endpoints ev ws p =
     (case init_loader ev p of
        (Some x, cl) \<Rightarrow>
          (Crashed x, \<lparr>loader = cl, domain_stats = [], metrics = no_metrics, sent = [], logged = []\<rparr>)
      | (None, cl) \<Rightarrow>
          monitor_loop ws
            \<lparr>loader = cl, domain_stats = [], metrics = no_metrics, sent = [], logged = []\<rparr>)"

section \<open>Invariants\<close>

text \<open>Every entry of \<^verbatim>\<open>domain_stats\<close> counts at least one probe.\<close>

definition totals_positive :: "(string, stats) dict \<Rightarrow> bool" where
  "totals_positive ds = list_all (\<lambda>kv. 1 \<le> total (snd kv)) ds"

text \<open>
  The names a source is recorded to define (\<^verbatim>\<open>self.file_endpoints[file_path]\<close>, empty for an
  untracked file), and the names attributed to some source.
\<close>

definition recorded :: "ConfigLoader \<Rightarrow> string \<Rightarrow> string set" where
  "recorded cl fp = (case map_of (file_endpoints cl) fp of None \<Rightarrow> {} | Some s \<Rightarrow> s)"

definition attributed :: "ConfigLoader \<Rightarrow> string set" where
  "attributed cl = \<Union> (snd ` set (file_endpoints cl))"

text \<open>No name is in the name-sets of two sources.\<close>

definition exclusive :: "(string, string set) dict \<Rightarrow> bool" where
  "exclusive fe = list_all (\<lambda>(f, s). list_all (\<lambda>(g, t). f = g \<or> s \<inter> t = {}) fe) fe"

text \<open>
  The invariant of the source tracking: both dicts have distinct keys, the names attributed to
  the sources are the keys of the endpoint dict, and no name is attributed to two sources.
\<close>

definition sources_consistent :: "ConfigLoader \<Rightarrow> bool" where
  "sources_consistent cl =
     (distinct (map fst (endpoints cl)) \<and> distinct (map fst (file_endpoints cl))
      \<and> fst ` set (endpoints cl) = attributed cl \<and> exclusive (file_endpoints cl))"

text \<open>The names a file declares, when it can be read as a document.\<close>

definition decl_names :: "decl list \<Rightarrow> string set" where
  "decl_names ds = set (List.map_filter d_name ds)"

definition declared :: "env \<Rightarrow> string \<Rightarrow> string set" where
  "declared ev fp =
     (case files ev fp of
        None \<Rightarrow> {}
      | Some f \<Rightarrow> (case content f of Document ds \<Rightarrow> decl_names ds | _ \<Rightarrow> {}))"

text \<open>
  No endpoint name is shared between two sources: what a file of the enumeration declares is
  declared by no other file of the enumeration and recorded for no other source.
\<close>

definition no_clash :: "env \<Rightarrow> ConfigLoader \<Rightarrow> bool" where
  "no_clash ev cl =
     (let fps = config_files ev (path cl) in
      list_all (\<lambda>fp.
          list_all (\<lambda>g. g = fp \<or> declared ev fp \<inter> declared ev g = {}) fps
          \<and> list_all (\<lambda>g. g = fp \<or> declared ev fp \<inter> recorded cl g = {})
                (map fst (file_endpoints cl)))
        fps)"

section \<open>A worked example\<close>

text \<open>
  Two endpoints in two files of a directory \<^verbatim>\<open>conf\<close>; the probe of \<^verbatim>\<open>A\<close> is answered with
  200 after a tenth of a second, the probe of \<^verbatim>\<open>B\<close> times out.
\<close>

definition ex_A :: decl where
  "ex_A = \<lparr>d_name = Some ''A'', d_url = Some ''http://svc1.example.com/health'',
           d_method = None, d_headers = None, d_body = None\<rparr>"

definition ex_B :: decl where
  "ex_B = \<lparr>d_name = Some ''B'', d_url = Some ''http://svc2.example.com/health'',
           d_method = None, d_headers = None, d_body = None\<rparr>"

definition ex_dir :: env where
  "ex_dir = \<lparr>path_kind = Directory [''one.yaml'', ''two.yaml'', ''notes.txt''],
             files = [''conf/one.yaml'' \<mapsto> \<lparr>mtime = 1, content = Document [ex_A]\<rparr>,
                      ''conf/two.yaml'' \<mapsto> \<lparr>mtime = 1, content = Document [ex_B]\<rparr>]\<rparr>"

text \<open>The same directory after \<^verbatim>\<open>two.yaml\<close> has been deleted.\<close>

definition ex_dir_one :: env where
  "ex_dir_one = \<lparr>path_kind = Directory [''one.yaml'', ''notes.txt''],
                 files = [''conf/one.yaml'' \<mapsto> \<lparr>mtime = 1, content = Document [ex_A]\<rparr>]\<rparr>"

definition ex_net :: net where
  "ex_net = (\<lambda>n r. if n = ''A'' then Response 200 (1 / 10) else Raised TimeoutError)"

definition ex_endpoint :: "string \<Rightarrow> string \<Rightarrow> string \<Rightarrow> string \<Rightarrow> stats \<Rightarrow> EndpointConfig" where
  "ex_endpoint n u fp d s =
     \<lparr>name = n, url = u, http_method = ''GET'', headers = [], body = None, file_path = fp,
      domain = d, stats = s\<rparr>"

text \<open>The loader after the initial load of \<^const>\<open>ex_dir\<close> and one cycle of probes.\<close>

definition ex_loader :: ConfigLoader where
  "ex_loader =
     \<lparr>path = ''conf'',
      endpoints =
        [(''A'', ex_endpoint ''A'' ''http://svc1.example.com/health'' ''conf/one.yaml''
                  ''svc1.example.com'' \<lparr>up = 1, total = 1\<rparr>),
         (''B'', ex_endpoint ''B'' ''http://svc2.example.com/health'' ''conf/two.yaml''
                  ''svc2.example.com'' \<lparr>up = 0, total = 1\<rparr>)],
      file_endpoints = [(''conf/one.yaml'', {''A''}), (''conf/two.yaml'', {''B''})],
      mod_times = [(''conf/one.yaml'', 1), (''conf/two.yaml'', 1)]\<rparr>"

definition ex_monitor :: monitor where
  "ex_monitor =
     \<lparr>loader = ex_loader,
      domain_stats = [(''svc1.example.com'', \<lparr>up = 1, total = 1\<rparr>),
                      (''svc2.example.com'', \<lparr>up = 0, total = 1\<rparr>)],
      metrics = no_metrics, sent = [], logged = []\<rparr>"


text \<open>\<^verbatim>\<open>one.yaml\<close> rewritten with the same declaration, and so a new modification time.\<close>

definition ex_dir_touched :: env where
  "ex_dir_touched = ex_dir\<lparr>files := (files ex_dir)
     (''conf/one.yaml'' \<mapsto> \<lparr>mtime = 2, content = Document [ex_A]\<rparr>)\<rparr>"

text \<open>\<^verbatim>\<open>two.yaml\<close> rewritten with a declaration of \<^verbatim>\<open>B\<close> that has no \<^verbatim>\<open>url\<close>.\<close>

definition ex_dir_no_url :: env where
  "ex_dir_no_url = ex_dir\<lparr>files := (files ex_dir)
     (''conf/two.yaml'' \<mapsto> \<lparr>mtime = 2, content = Document [ex_B\<lparr>d_url := None\<rparr>]\<rparr>)\<rparr>"

text \<open>\<^verbatim>\<open>two.yaml\<close> rewritten with text that is no YAML.\<close>

definition ex_dir_malformed :: env where
  "ex_dir_malformed = ex_dir\<lparr>files := (files ex_dir)
     (''conf/two.yaml'' \<mapsto> \<lparr>mtime = 2, content = Malformed\<rparr>)\<rparr>"

text \<open>Both files declare an endpoint named \<^verbatim>\<open>A\<close>.\<close>

definition ex_dir_same_name :: env where
  "ex_dir_same_name = ex_dir\<lparr>files := (files ex_dir)
     (''conf/two.yaml'' \<mapsto> \<lparr>mtime = 1, content = Document [ex_A]\<rparr>)\<rparr>"

section \<open>Properties\<close>


lemma py_round_tie: "\<bar>of_int (py_round q) - q\<bar> = 1 / 2 \<Longrightarrow> even (py_round q)"
proof -
  define f where "f = \<lfloor>q\<rfloor>"
  have b: "of_int f \<le> q" "q < of_int f + 1" unfolding f_def by linarith+
  assume a: "\<bar>of_int (py_round q) - q\<bar> = 1 / 2"
  consider (lo) "py_round q = f" "q - of_int f < 1 / 2"
    | (hi) "py_round q = f + 1" "1 / 2 < q - of_int f"
    | (tie) "q - of_int f = 1 / 2"
    unfolding py_round_def Let_def f_def[symmetric]
    by (cases "q - of_int f < 1 / 2"; cases "1 / 2 < q - of_int f") auto
  then show ?thesis
  proof cases
    case lo
    with a b have False by (simp add: abs_if split: if_splits)
    then show ?thesis ..
  next
    case hi
    with a b have False by (simp add: abs_if split: if_splits)
    then show ?thesis ..
  next
    case tie
    then show ?thesis unfolding py_round_def Let_def f_def[symmetric] by auto
  qed
qed



text \<open>
  C9. The claim is that the derived domain is the host of the URL, whatever else the authority
  holds. On a URL with user information the code returns the user name, not the host.
\<close>

theorem get_domain_userinfo:
  "get_domain ''http://user:pw@example.com:8080/health'' = ''user''
   \<and> spec_host ''http://user:pw@example.com:8080/health'' = ''example.com''"
  by (simp add: get_domain_def spec_host_def after_userinfo_def netloc_def after_scheme_def
      ascii_letters_def scheme_chars_def)




lemma check_health_Response:
  "nt (name e) (probe_request e) = Response st el \<Longrightarrow>
   check_health nt e thr m =
     Inr (if 200 \<le> st \<and> st < 300 \<and> el < thr then UP else DOWN,
          set_status (name e) (if 200 \<le> st \<and> st < 300 \<and> el < thr then 1 else 0)
            (inc_code (name e) (str_int st) (observe (name e) el m)))"
  by (simp add: check_health_def check_health_try_def Let_def)

lemma check_health_Raised:
  "nt (name e) (probe_request e) = Raised x \<Longrightarrow>
   check_health nt e thr m = Inr (DOWN, inc_code (name e) ''error'' (set_status (name e) 0 m))"
  by (simp add: check_health_def check_health_try_def)




text \<open>
  C2. The claim is that a probe uses the endpoint's method, headers and body. For an endpoint
  declared with method \<^verbatim>\<open>post\<close>, a header and a body, the loader stores \<^verbatim>\<open>POST\<close>, the header
  and the body, and the probe sends a GET without them.
\<close>

theorem probe_request_ignores_method:
  "make_endpoint ''f.yaml''
     \<lparr>d_name = Some ''a'', d_url = Some ''http://svc1.example.com/submit'',
      d_method = Some ''post'', d_headers = Some [(''content-type'', ''application/json'')],
      d_body = Some ''{}''\<rparr>
   = Inr \<lparr>name = ''a'', url = ''http://svc1.example.com/submit'', http_method = ''POST'',
          headers = [(''content-type'', ''application/json'')], body = Some ''{}'',
          file_path = ''f.yaml'', domain = ''svc1.example.com'', stats = zero_stats\<rparr>
   \<and> probe_request
        \<lparr>name = ''a'', url = ''http://svc1.example.com/submit'', http_method = ''POST'',
          headers = [(''content-type'', ''application/json'')], body = Some ''{}'',
          file_path = ''f.yaml'', domain = ''svc1.example.com'', stats = zero_stats\<rparr>
     = \<lparr>req_method = ''GET'', req_url = ''http://svc1.example.com/submit'', req_headers = [],
        req_body = None, req_timeout = 1\<rparr>"
  by (simp add: make_endpoint_def probe_request_def upper_def upper_char_def get_domain_def
      netloc_def after_scheme_def ascii_letters_def scheme_chars_def)

text \<open>
  C8. When a refresh returns with no endpoint, the loop is left at once by \<^verbatim>\<open>break\<close>: the
  run is \<^const>\<open>Stopped\<close> (not crashed), nothing but the loader has changed (no request sent, no
  metric, no statistics), and the worlds of later iterations play no part.
\<close>

theorem empty_refresh_stops:
  "refresh (fs w) (loader m) = (None, cl) \<Longrightarrow> endpoints cl = [] \<Longrightarrow>
   monitor_loop (w # ws) m = (Stopped, m\<lparr>loader := cl\<rparr>)"
  by (simp add: cycle_def)

theorem empty_refresh_stops_witness:
  "refresh \<lparr>path_kind = Directory [], files = (\<lambda>p. None)\<rparr> (new_loader ''conf'')
     = (None, new_loader ''conf'')
   \<and> endpoints (new_loader ''conf'') = []
   \<and> monitor_loop
       [\<lparr>fs = \<lparr>path_kind = Directory [], files = (\<lambda>p. None)\<rparr>,
         network = (\<lambda>n r. Response 200 0)\<rparr>]
       \<lparr>loader = new_loader ''conf'', domain_stats = [], metrics = no_metrics, sent = [],
         logged = []\<rparr>
     = (Stopped,
        \<lparr>loader = new_loader ''conf'', domain_stats = [], metrics = no_metrics, sent = [],
          logged = []\<rparr>)"
proof -
  have r: "refresh \<lparr>path_kind = Directory [], files = (\<lambda>p. None)\<rparr> (new_loader ''conf'')
     = (None, new_loader ''conf'')"
    by (simp add: refresh_def config_files_def remove_where_def new_loader_def)
  have e: "endpoints (new_loader ''conf'') = []"
    by (simp add: new_loader_def)
  show ?thesis
    using r e empty_refresh_stops
      [of "\<lparr>fs = \<lparr>path_kind = Directory [], files = (\<lambda>p. None)\<rparr>,
            network = (\<lambda>n r. Response 200 0)\<rparr>"
          "\<lparr>loader = new_loader ''conf'', domain_stats = [], metrics = no_metrics, sent = [],
            logged = []\<rparr>" "new_loader ''conf''" "[]"]
    by simp
qed

subsection \<open>Domain statistics\<close>




lemma gather_Inr: "\<exists>rs mt. gather nt es m = Inr (rs, mt) \<and> length rs = length es"
proof (induction es arbitrary: m)
  case Nil
  show ?case by simp
next
  case (Cons e es)
  obtain r m' where c: "check_health nt e default_threshold m = Inr (r, m')"
    by (cases "nt (name e) (probe_request e)")
      (auto simp: check_health_Response check_health_Raised)
  from Cons[of m'] obtain rs mt where "gather nt es m' = Inr (rs, mt)" "length rs = length es"
    by blast
  with c show ?case by simp
qed




lemma cycle_proceeds:
  assumes "refresh (fs w) (loader m) = (None, cl)" "endpoints cl \<noteq> []"
  obtains results mt kes ds' where
    "gather (network w) (map snd (endpoints cl)) (metrics m) = Inr (results, mt)"
    "length results = length (endpoints cl)"
    "record_results (endpoints cl) results
       (clean_domains (map snd (endpoints cl)) (domain_stats m)) = (kes, ds')"
    "domain_stats (snd (cycle w m)) = ds'"
    "endpoints (loader (snd (cycle w m))) = kes"
    "fst (cycle w m) = (case report ds' of Inl x \<Rightarrow> Crashed x | Inr l \<Rightarrow> Running)"
proof -
  obtain results mt where
    g: "gather (network w) (map snd (endpoints cl)) (metrics m) = Inr (results, mt)"
    and l: "length results = length (map snd (endpoints cl))"
    using gather_Inr by blast
  obtain kes ds' where
    r: "record_results (endpoints cl) results
          (clean_domains (map snd (endpoints cl)) (domain_stats m)) = (kes, ds')"
    by (cases "record_results (endpoints cl) results
          (clean_domains (map snd (endpoints cl)) (domain_stats m))")
  have "domain_stats (snd (cycle w m)) = ds'" "endpoints (loader (snd (cycle w m))) = kes"
    "fst (cycle w m) = (case report ds' of Inl x \<Rightarrow> Crashed x | Inr l \<Rightarrow> Running)"
    using assms g r by (auto simp: cycle_def Let_def split: sum.splits)
  with g l r that show thesis by simp
qed


subsection \<open>No division by zero\<close>

lemma totals_positive_delete: "totals_positive ds \<Longrightarrow> totals_positive (AList.delete k ds)"
  by (simp add: totals_positive_def AList.delete_eq list_all_iff)

lemma totals_positive_fold_delete:
  "totals_positive ds \<Longrightarrow> totals_positive (fold AList.delete ks ds)"
  by (induction ks arbitrary: ds) (simp_all add: totals_positive_delete)

lemma totals_positive_clean: "totals_positive ds \<Longrightarrow> totals_positive (clean_domains eps ds)"
  by (simp add: clean_domains_def Let_def totals_positive_fold_delete)

lemma totals_positive_update:
  "totals_positive ds \<Longrightarrow> 1 \<le> total v \<Longrightarrow> totals_positive (AList.update k v ds)"
  by (induction ds) (auto simp: totals_positive_def)

lemma totals_positive_lookup: "totals_positive ds \<Longrightarrow> map_of ds d = Some s \<Longrightarrow> 1 \<le> total s"
proof -
  assume p: "totals_positive ds" and l: "map_of ds d = Some s"
  from l have "(d, s) \<in> set ds" by (rule map_of_SomeD)
  with p have "1 \<le> total (snd (d, s))" unfolding totals_positive_def list_all_iff by blast
  then show ?thesis by simp
qed

lemma totals_positive_record_domain:
  "totals_positive ds \<Longrightarrow> totals_positive (record_domain d r ds)"
proof -
  assume p: "totals_positive ds"
  have "0 \<le> total (case map_of ds d of None \<Rightarrow> zero_stats | Some s \<Rightarrow> s)"
    using totals_positive_lookup[OF p, of d]
    by (cases "map_of ds d") (auto simp: zero_stats_def)
  then show ?thesis
    unfolding record_domain_def Let_def
    by (intro totals_positive_update[OF p]) simp
qed

lemma totals_positive_record_results:
  "record_results kes rs ds = (kes', ds') \<Longrightarrow> totals_positive ds \<Longrightarrow> totals_positive ds'"
proof (induction kes rs ds arbitrary: kes' ds' rule: record_results.induct)
  case (1 k e kes r rs ds)
  obtain a b where ab: "record_results kes rs (record_domain (domain e) r ds) = (a, b)"
    by (cases "record_results kes rs (record_domain (domain e) r ds)")
  with 1(2) have b: "b = ds'" by auto
  from 1(1)[OF ab totals_positive_record_domain[OF 1(3)]] b show ?case by simp
qed auto

lemma report_positive: "totals_positive ds \<Longrightarrow> \<exists>lines. report ds = Inr lines"
proof (induction ds)
  case Nil
  show ?case by simp
next
  case (Cons kv ds)
  then obtain lines where "report ds = Inr lines" by (auto simp: totals_positive_def)
  moreover from Cons(2) have "total (snd kv) \<noteq> 0" by (auto simp: totals_positive_def)
  ultimately show ?case by (cases kv) simp
qed

lemma report_raises: "report ds = Inl x \<Longrightarrow> x = ZeroDivisionError"
  by (induction ds arbitrary: x rule: report.induct) (auto split: if_splits sum.splits)

text \<open>The exceptions that leave the loader are those of an unreadable file and of a constructor call.\<close>

lemma load_decls_raises: "load_decls fp ds eps cur = (Some x, r) \<Longrightarrow> x = TypeError"
  by (induction ds arbitrary: eps cur)
    (auto simp: make_endpoint_def split: sum.splits option.splits)

lemma load_file_raises:
  "load_file ev fp cl = (Some x, cl') \<Longrightarrow> x = PermissionError \<or> x = TypeError"
  by (auto simp: load_file_def split: option.splits if_splits content.splits prod.splits
      dest: load_decls_raises)

lemma refresh_file_raises:
  "refresh_file ev fp cl = (Some x, cl') \<Longrightarrow> x = PermissionError \<or> x = TypeError"
  by (auto simp: refresh_file_def split: option.splits if_splits dest: load_file_raises)

lemma for_files_raises:
  "for_files step fps cl = (Some x, cl') \<Longrightarrow>
   (\<And>fp c c'. step fp c = (Some x, c') \<Longrightarrow> P) \<Longrightarrow> P"
proof (induction fps arbitrary: cl)
  case Nil
  then show ?case by simp
next
  case (Cons fp fps)
  show ?case
  proof (cases "step fp cl")
    case (Pair e c)
    show ?thesis
    proof (cases e)
      case None
      with Pair Cons(2) have "for_files step fps c = (Some x, cl')" by simp
      from Cons(1)[OF this Cons(3)] show ?thesis .
    next
      case (Some y)
      with Pair Cons(2) have "step fp cl = (Some x, cl')" by simp
      then show ?thesis by (rule Cons(3))
    qed
  qed
qed

lemma refresh_raises:
  "refresh ev cl = (Some x, cl') \<Longrightarrow> x = PermissionError \<or> x = TypeError"
proof -
  assume "refresh ev cl = (Some x, cl')"
  then have "for_files (refresh_file ev) (config_files ev (path cl)) cl = (Some x, cl')"
    by (auto simp: refresh_def Let_def split: prod.splits option.splits)
  then show ?thesis by (rule for_files_raises) (rule refresh_file_raises)
qed

lemma load_configs_raises:
  "load_configs ev cl = (Some x, cl') \<Longrightarrow> x = PermissionError \<or> x = TypeError"
proof -
  assume "load_configs ev cl = (Some x, cl')"
  then have "for_files (load_file ev) (config_files ev (path cl)) cl = (Some x, cl')"
    by (auto simp: load_configs_def Let_def split: prod.splits option.splits)
  then show ?thesis by (rule for_files_raises) (rule load_file_raises)
qed

lemma cycle_totals_positive:
  assumes "totals_positive (domain_stats m)"
  shows "totals_positive (domain_stats (snd (cycle w m)))
         \<and> fst (cycle w m) \<noteq> Crashed ZeroDivisionError"
proof (cases "refresh (fs w) (loader m)")
  case (Pair e cl)
  show ?thesis
  proof (cases e)
    case (Some x)
    with Pair refresh_raises[of "fs w" "loader m" x cl] assms show ?thesis
      by (auto simp: cycle_def)
  next
    case None
    show ?thesis
    proof (cases "endpoints cl = []")
      case True
      with None Pair assms show ?thesis by (simp add: cycle_def)
    next
      case False
      from None Pair have r: "refresh (fs w) (loader m) = (None, cl)" by simp
      from cycle_proceeds[OF r False] obtain results mt kes ds' where
        rr: "record_results (endpoints cl) results
              (clean_domains (map snd (endpoints cl)) (domain_stats m)) = (kes, ds')"
        and d: "domain_stats (snd (cycle w m)) = ds'"
        and f: "fst (cycle w m) = (case report ds' of Inl x \<Rightarrow> Crashed x | Inr l \<Rightarrow> Running)"
        by metis
      have p: "totals_positive ds'"
        using totals_positive_record_results[OF rr totals_positive_clean[OF assms]] .
      from report_positive[OF p] obtain lines where "report ds' = Inr lines" ..
      with p d f show ?thesis by simp
    qed
  qed
qed

lemma monitor_loop_totals_positive:
  "totals_positive (domain_stats m) \<Longrightarrow>
   totals_positive (domain_stats (snd (monitor_loop ws m)))
   \<and> fst (monitor_loop ws m) \<noteq> Crashed ZeroDivisionError"
proof (induction ws arbitrary: m)
  case Nil
  then show ?case by simp
next
  case (Cons w ws)
  from cycle_totals_positive[OF Cons(2), of w]
  have c: "totals_positive (domain_stats (snd (cycle w m)))"
    "fst (cycle w m) \<noteq> Crashed ZeroDivisionError" by simp_all
  show ?case
  proof (cases "cycle w m")
    case (Pair st m')
    with c Cons(1)[of m'] show ?thesis by (cases st) auto
  qed
qed

text \<open>
  C10. Every entry of \<^verbatim>\<open>domain_stats\<close> has a total of at least 1: this holds when the module is
  loaded, every iteration keeps it, and so it holds in every state a run reaches; the
  availability loop of the report then divides by no zero, and no run ends with a
  \<^verbatim>\<open>ZeroDivisionError\<close>.
\<close>

theorem domain_totals_positive:
  "totals_positive []
   \<and> (totals_positive (domain_stats m) \<longrightarrow>
        totals_positive (domain_stats (snd (cycle w m)))
        \<and> fst (cycle w m) \<noteq> Crashed ZeroDivisionError)
   \<and> totals_positive (domain_stats (snd (monitor_endpoints ev ws p)))
   \<and> (\<exists>lines. report (domain_stats (snd (monitor_endpoints ev ws p))) = Inr lines)
   \<and> fst (monitor_endpoints ev ws p) \<noteq> Crashed ZeroDivisionError"
proof -
  have e: "totals_positive []" by (simp add: totals_positive_def)
  have "totals_positive (domain_stats (snd (monitor_endpoints ev ws p)))
      \<and> fst (monitor_endpoints ev ws p) \<noteq> Crashed ZeroDivisionError"
  proof (cases "init_loader ev p")
    case (Pair x cl)
    show ?thesis
    proof (cases x)
      case None
      with Pair show ?thesis
        using monitor_loop_totals_positive
          [of "\<lparr>loader = cl, domain_stats = [], metrics = no_metrics, sent = [], logged = []\<rparr>" ws]
          e
        by (simp add: monitor_endpoints_def)
    next
      case (Some y)
      with Pair load_configs_raises[of ev "new_loader p" y cl] e show ?thesis
        by (auto simp: monitor_endpoints_def init_loader_def)
    qed
  qed
  with e cycle_totals_positive report_positive show ?thesis by blast
qed

subsection \<open>The worked example, evaluated\<close>

lemmas ex_defs = ex_A_def ex_B_def ex_dir_def ex_dir_one_def ex_net_def ex_endpoint_def
  ex_loader_def ex_monitor_def

lemma ex_refresh_one:
  "refresh ex_dir_one ex_loader =
     (None, ex_loader\<lparr>endpoints := [(''A'', ex_endpoint ''A'' ''http://svc1.example.com/health''
        ''conf/one.yaml'' ''svc1.example.com'' \<lparr>up = 1, total = 1\<rparr>)],
        file_endpoints := [(''conf/one.yaml'', {''A''})],
        mod_times := [(''conf/one.yaml'', 1)]\<rparr>)"
  by (simp add: ex_defs refresh_def config_files_def endswith_yaml_def join_def
      refresh_file_def remove_where_def remove_file_endpoints_def del_names_def Let_def)

lemma ex_cycle_one:
  "fst (cycle \<lparr>fs = ex_dir_one, network = ex_net\<rparr> ex_monitor) = Running
   \<and> domain_stats (snd (cycle \<lparr>fs = ex_dir_one, network = ex_net\<rparr> ex_monitor))
       = [(''svc1.example.com'', \<lparr>up = 2, total = 2\<rparr>)]"
  by (simp add: cycle_def ex_refresh_one ex_monitor_def Let_def ex_endpoint_def
      clean_domains_def check_health_def check_health_try_def ex_net_def default_threshold_def
      probe_request_def record_domain_def update_stats_def AList.delete_eq)




theorem domain_totals_positive_witness:
  "totals_positive (domain_stats ex_monitor)
   \<and> totals_positive (domain_stats (snd (cycle \<lparr>fs = ex_dir_one, network = ex_net\<rparr> ex_monitor)))
   \<and> fst (cycle \<lparr>fs = ex_dir_one, network = ex_net\<rparr> ex_monitor) = Running"
proof -
  have p: "totals_positive (domain_stats ex_monitor)"
    by (simp add: ex_monitor_def totals_positive_def)
  show ?thesis
    using p domain_totals_positive
      [of ex_monitor "\<lparr>fs = ex_dir_one, network = ex_net\<rparr>" ex_dir "[]" "''conf''"]
      ex_cycle_one
    by simp
qed

subsection \<open>Dict operations as maps\<close>

lemma map_of_del_names:
  "map_of (del_names S eps) k = (if k \<in> S then None else map_of eps k)"
  by (induction eps) (auto simp: del_names_def)

lemma keys_del_names: "fst ` set (del_names S eps) = fst ` set eps - S"
  by (auto simp: del_names_def)

lemma distinct_del_names: "distinct (map fst eps) \<Longrightarrow> distinct (map fst (del_names S eps))"
  by (simp add: del_names_def distinct_map_filter)

lemma decl_names_Cons:
  "decl_names (d # ds) = (case d_name d of None \<Rightarrow> {} | Some n \<Rightarrow> {n}) \<union> decl_names ds"
  by (auto simp: decl_names_def List.map_filter_def split: option.splits)

lemma decl_names_iff: "n \<in> decl_names ds \<longleftrightarrow> (\<exists>d\<in>set ds. d_name d = Some n)"
  by (induction ds) (auto simp: decl_names_Cons decl_names_def List.map_filter_def split: option.splits)

lemma make_endpoint_Inr:
  "make_endpoint fp d = Inr e \<Longrightarrow>
   d_name d = Some (name e) \<and> d_url d = Some (url e) \<and> file_path e = fp
   \<and> stats e = zero_stats \<and> domain e = get_domain (url e)
   \<and> http_method e = upper (case d_method d of None \<Rightarrow> ''GET'' | Some m \<Rightarrow> m)
   \<and> headers e = (case d_headers d of None \<Rightarrow> [] | Some h \<Rightarrow> h) \<and> body e = d_body d"
  by (auto simp: make_endpoint_def split: option.splits)

lemma load_decls_keys:
  "load_decls fp ds eps cur = (None, eps', cur') \<Longrightarrow>
   cur' = cur \<union> decl_names ds \<and> fst ` set eps' = fst ` set eps \<union> decl_names ds
   \<and> (distinct (map fst eps) \<longrightarrow> distinct (map fst eps'))"
proof (induction ds arbitrary: eps cur)
  case Nil
  then show ?case by (simp add: decl_names_def List.map_filter_def)
next
  case (Cons d ds)
  from Cons(2) obtain e where e: "make_endpoint fp d = Inr e"
    by (cases "make_endpoint fp d") auto
  with Cons(2) have
    "load_decls fp ds (AList.update (name e) e eps) (insert (name e) cur) = (None, eps', cur')"
    by simp
  from Cons(1)[OF this] make_endpoint_Inr[OF e] show ?case
    by (auto simp: decl_names_Cons dom_update distinct_update)
qed



lemmas ex_defs2 = ex_defs ex_dir_touched_def ex_dir_no_url_def ex_dir_malformed_def
  ex_dir_same_name_def

lemmas loader_defs = refresh_def config_files_def endswith_yaml_def join_def
  refresh_file_def remove_where_def remove_file_endpoints_def del_names_def Let_def
  load_file_def load_file_handler_def make_endpoint_def upper_def upper_char_def
  get_domain_def netloc_def after_scheme_def ascii_letters_def scheme_chars_def
  load_configs_def init_loader_def new_loader_def zero_stats_def

subsection \<open>Reloading a file\<close>

lemma load_file_unchanged:
  "files ev fp = Some f \<Longrightarrow> map_of (mod_times cl) fp = Some (mtime f) \<Longrightarrow>
   load_file ev fp cl = (None, cl)"
  by (simp add: load_file_def)

lemma load_file_Document:
  assumes "files ev fp = Some f" "map_of (mod_times cl) fp \<noteq> Some (mtime f)"
    "content f = Document ds" "load_file ev fp cl = (None, cl')"
  obtains eps where
    "load_decls fp ds (endpoints cl) {} = (None, eps, decl_names ds)"
    "cl' = cl\<lparr>endpoints := del_names (recorded cl fp - decl_names ds) eps,
              file_endpoints := AList.update fp (decl_names ds) (file_endpoints cl),
              mod_times := AList.update fp (mtime f) (mod_times cl)\<rparr>"
proof -
  obtain r eps cur where l: "load_decls fp ds (endpoints cl) {} = (r, eps, cur)"
    by (cases "load_decls fp ds (endpoints cl) {}")
  with assms have r: "r = None" by (auto simp: load_file_def split: option.splits)
  with l load_decls_keys[of fp ds "endpoints cl" "{}" eps cur] have c: "cur = decl_names ds"
    by simp
  have "del_names ({} - decl_names ds) eps = eps" by (simp add: del_names_def)
  with assms l r c have
    "cl' = cl\<lparr>endpoints := del_names (recorded cl fp - decl_names ds) eps,
              file_endpoints := AList.update fp (decl_names ds) (file_endpoints cl),
              mod_times := AList.update fp (mtime f) (mod_times cl)\<rparr>"
    by (auto simp: load_file_def recorded_def split: option.splits)
  with l r c that show thesis by simp
qed






subsection \<open>A source that cannot be loaded\<close>

lemma load_file_handler_eq: "load_file_handler fp cl = remove_file_endpoints fp cl"
  by (auto simp: load_file_handler_def remove_file_endpoints_def)

lemma remove_file_endpoints_endpoints:
  "map_of (endpoints (remove_file_endpoints fp cl)) n
     = (if n \<in> recorded cl fp then None else map_of (endpoints cl) n)"
  by (auto simp: remove_file_endpoints_def recorded_def map_of_del_names split: option.splits)

lemma remove_file_endpoints_recorded:
  "recorded (remove_file_endpoints fp cl) g = (if g = fp then {} else recorded cl g)"
  by (auto simp: remove_file_endpoints_def recorded_def delete_conv' split: option.splits)

lemma remove_file_endpoints_mod_times:
  "g \<noteq> fp \<Longrightarrow> map_of (mod_times (remove_file_endpoints fp cl)) g = map_of (mod_times cl) g"
  by (auto simp: remove_file_endpoints_def delete_conv' split: option.splits)

lemma load_file_fails:
  "files ev fp = None
     \<or> (\<exists>f. files ev fp = Some f \<and> map_of (mod_times cl) fp \<noteq> Some (mtime f)
           \<and> content f = Malformed) \<Longrightarrow>
   load_file ev fp cl = (None, remove_file_endpoints fp cl)"
  by (auto simp: load_file_def load_file_handler_eq)

text \<open>
  C4, as the code has it. When the file of a source is not found, or its content is not YAML,
  the failure is handled inside \<^verbatim>\<open>_load_file\<close>: the call returns, and so does the step of
  \<^verbatim>\<open>refresh\<close> for that file; the endpoints recorded for the source are gone, every endpoint
  whose name is not recorded for it is untouched, and the records of the other sources are
  untouched.
\<close>

theorem load_failure_recovered:
  "files ev fp = None
     \<or> (\<exists>f. files ev fp = Some f \<and> map_of (mod_times cl) fp \<noteq> Some (mtime f)
           \<and> content f = Malformed) \<Longrightarrow>
   (\<exists>cl'. load_file ev fp cl = (None, cl')
      \<and> (\<forall>n. n \<in> recorded cl fp \<longrightarrow> map_of (endpoints cl') n = None)
      \<and> (\<forall>n. n \<notin> recorded cl fp \<longrightarrow> map_of (endpoints cl') n = map_of (endpoints cl) n)
      \<and> recorded cl' fp = {}
      \<and> (\<forall>g. g \<noteq> fp \<longrightarrow>
            recorded cl' g = recorded cl g \<and> map_of (mod_times cl') g = map_of (mod_times cl) g))
   \<and> fst (refresh_file ev fp cl) = None"
proof -
  assume a: "files ev fp = None
     \<or> (\<exists>f. files ev fp = Some f \<and> map_of (mod_times cl) fp \<noteq> Some (mtime f)
           \<and> content f = Malformed)"
  have l: "load_file ev fp cl = (None, remove_file_endpoints fp cl)"
    using a by (rule load_file_fails)
  have "fst (refresh_file ev fp cl) = None"
    using l by (auto simp: refresh_file_def split: option.splits)
  with l show ?thesis
    by (simp add: remove_file_endpoints_endpoints remove_file_endpoints_recorded
        remove_file_endpoints_mod_times)
qed

lemma ex_load_malformed:
  "load_file ex_dir_malformed ''conf/two.yaml'' ex_loader =
     (None, ex_loader\<lparr>endpoints := [(''A'', ex_endpoint ''A'' ''http://svc1.example.com/health''
        ''conf/one.yaml'' ''svc1.example.com'' \<lparr>up = 1, total = 1\<rparr>)],
        file_endpoints := [(''conf/one.yaml'', {''A''})],
        mod_times := [(''conf/one.yaml'', 1)]\<rparr>)"
  by (simp add: ex_defs2 loader_defs)

theorem load_failure_recovered_witness:
  "files ex_dir_malformed ''conf/two.yaml'' = Some \<lparr>mtime = 2, content = Malformed\<rparr>
   \<and> map_of (mod_times ex_loader) ''conf/two.yaml'' = Some 1
   \<and> fst (load_file ex_dir_malformed ''conf/two.yaml'' ex_loader) = None
   \<and> map fst (endpoints (snd (load_file ex_dir_malformed ''conf/two.yaml'' ex_loader))) = [''A'']
   \<and> fst (refresh_file ex_dir_malformed ''conf/two.yaml'' ex_loader) = None"
proof -
  have h: "files ex_dir_malformed ''conf/two.yaml'' = Some \<lparr>mtime = 2, content = Malformed\<rparr>"
    "map_of (mod_times ex_loader) ''conf/two.yaml'' = Some 1"
    by (simp_all add: ex_defs2)
  then have "files ex_dir_malformed ''conf/two.yaml'' = None
     \<or> (\<exists>f. files ex_dir_malformed ''conf/two.yaml'' = Some f
           \<and> map_of (mod_times ex_loader) ''conf/two.yaml'' \<noteq> Some (mtime f)
           \<and> content f = Malformed)"
    by simp
  from load_failure_recovered[OF this] h ex_load_malformed show ?thesis
    by simp
qed

text \<open>
  A declaration without \<^verbatim>\<open>url\<close>: the \<^verbatim>\<open>TypeError\<close> of the constructor is not caught by
  \<^verbatim>\<open>_load_file\<close>; it leaves \<^verbatim>\<open>refresh\<close>, and the iteration of the monitoring loop with it.
\<close>

theorem missing_url_raises:
  "fst (refresh ex_dir_no_url ex_loader) = Some TypeError
   \<and> fst (cycle \<lparr>fs = ex_dir_no_url, network = ex_net\<rparr> ex_monitor) = Crashed TypeError"
proof -
  have "fst (refresh ex_dir_no_url ex_loader) = Some TypeError"
    by (simp add: ex_defs2 loader_defs)
  then show ?thesis
    by (auto simp: cycle_def ex_monitor_def split: prod.splits option.splits)
qed

subsection \<open>The invariant of the source tracking\<close>

lemma recorded_iff:
  "distinct (map fst (file_endpoints cl)) \<Longrightarrow>
   n \<in> recorded cl f \<longleftrightarrow> (\<exists>s. (f, s) \<in> set (file_endpoints cl) \<and> n \<in> s)"
proof
  assume "n \<in> recorded cl f"
  then obtain s where "map_of (file_endpoints cl) f = Some s" "n \<in> s"
    by (auto simp: recorded_def split: option.splits)
  then show "\<exists>s. (f, s) \<in> set (file_endpoints cl) \<and> n \<in> s"
    by (blast dest: map_of_SomeD)
next
  assume d: "distinct (map fst (file_endpoints cl))"
  assume "\<exists>s. (f, s) \<in> set (file_endpoints cl) \<and> n \<in> s"
  then obtain s where s: "(f, s) \<in> set (file_endpoints cl)" "n \<in> s" by blast
  with d have "recorded cl f = s" by (simp add: recorded_def)
  with s show "n \<in> recorded cl f" by simp
qed

lemma attributed_iff:
  "distinct (map fst (file_endpoints cl)) \<Longrightarrow> n \<in> attributed cl \<longleftrightarrow> (\<exists>f. n \<in> recorded cl f)"
proof -
  assume d: "distinct (map fst (file_endpoints cl))"
  have "n \<in> attributed cl \<longleftrightarrow> (\<exists>f s. (f, s) \<in> set (file_endpoints cl) \<and> n \<in> s)"
    unfolding attributed_def by force
  then show ?thesis using recorded_iff[OF d] by simp
qed

lemma exclusive_iff:
  assumes "distinct (map fst (file_endpoints cl))"
  shows "exclusive (file_endpoints cl)
         \<longleftrightarrow> (\<forall>f g. f \<noteq> g \<longrightarrow> recorded cl f \<inter> recorded cl g = {})"
proof
  assume e: "exclusive (file_endpoints cl)"
  show "\<forall>f g. f \<noteq> g \<longrightarrow> recorded cl f \<inter> recorded cl g = {}"
  proof (intro allI impI)
    fix f g :: string
    assume ne: "f \<noteq> g"
    {
      fix n assume "n \<in> recorded cl f" "n \<in> recorded cl g"
      then obtain s t where st: "(f, s) \<in> set (file_endpoints cl)" "n \<in> s"
        "(g, t) \<in> set (file_endpoints cl)" "n \<in> t"
        using recorded_iff[OF assms] by blast
      with e ne have "s \<inter> t = {}" unfolding exclusive_def list_all_iff by fastforce
      with st have False by blast
    }
    then show "recorded cl f \<inter> recorded cl g = {}" by blast
  qed
next
  assume r: "\<forall>f g. f \<noteq> g \<longrightarrow> recorded cl f \<inter> recorded cl g = {}"
  {
    fix f s g t
    assume m: "(f, s) \<in> set (file_endpoints cl)" "(g, t) \<in> set (file_endpoints cl)" "f \<noteq> g"
    with assms have "recorded cl f = s" "recorded cl g = t"
      by (simp_all add: recorded_def)
    with r m have "s \<inter> t = {}" by blast
  }
  then have "\<And>f s g t. (f, s) \<in> set (file_endpoints cl) \<Longrightarrow>
      (g, t) \<in> set (file_endpoints cl) \<Longrightarrow> f = g \<or> s \<inter> t = {}"
    by blast
  then show "exclusive (file_endpoints cl)"
    unfolding exclusive_def list_all_iff by (simp add: split_beta)
qed

lemma sources_consistent_iff:
  "sources_consistent cl \<longleftrightarrow>
     distinct (map fst (endpoints cl)) \<and> distinct (map fst (file_endpoints cl))
     \<and> (\<forall>n. n \<in> fst ` set (endpoints cl) \<longleftrightarrow> (\<exists>f. n \<in> recorded cl f))
     \<and> (\<forall>f g. f \<noteq> g \<longrightarrow> recorded cl f \<inter> recorded cl g = {})"
proof (cases "distinct (map fst (file_endpoints cl))")
  case True
  have "fst ` set (endpoints cl) = attributed cl
        \<longleftrightarrow> (\<forall>n. n \<in> fst ` set (endpoints cl) \<longleftrightarrow> (\<exists>f. n \<in> recorded cl f))"
    using attributed_iff[OF True] by blast
  with True exclusive_iff[OF True] show ?thesis
    by (simp add: sources_consistent_def)
next
  case False
  then show ?thesis by (simp add: sources_consistent_def)
qed

lemma remove_file_endpoints_keys:
  "fst ` set (endpoints (remove_file_endpoints fp cl)) = fst ` set (endpoints cl) - recorded cl fp"
  by (auto simp: remove_file_endpoints_def recorded_def keys_del_names split: option.splits)

lemma remove_file_endpoints_distinct:
  "distinct (map fst (endpoints cl)) \<Longrightarrow> distinct (map fst (file_endpoints cl)) \<Longrightarrow>
   distinct (map fst (endpoints (remove_file_endpoints fp cl)))
   \<and> distinct (map fst (file_endpoints (remove_file_endpoints fp cl)))"
  by (auto simp: remove_file_endpoints_def distinct_del_names distinct_delete split: option.splits)

lemma remove_file_endpoints_consistent:
  assumes "sources_consistent cl"
  shows "sources_consistent (remove_file_endpoints fp cl)"
proof -
  from assms have d: "distinct (map fst (endpoints cl))" "distinct (map fst (file_endpoints cl))"
    and k: "\<And>n. n \<in> fst ` set (endpoints cl) \<longleftrightarrow> (\<exists>f. n \<in> recorded cl f)"
    and x: "\<And>f g. f \<noteq> g \<Longrightarrow> recorded cl f \<inter> recorded cl g = {}"
    by (simp_all add: sources_consistent_iff)
  have "\<And>n. n \<in> fst ` set (endpoints cl) - recorded cl fp
           \<longleftrightarrow> (\<exists>f. n \<in> (if f = fp then {} else recorded cl f))"
    using k x by (metis Diff_iff disjoint_iff empty_iff)
  moreover have "\<And>f g. f \<noteq> g \<Longrightarrow>
      (if f = fp then {} else recorded cl f) \<inter> (if g = fp then {} else recorded cl g) = {}"
    using x by auto
  ultimately show ?thesis
    using remove_file_endpoints_distinct[OF d, of fp]
    by (simp add: sources_consistent_iff remove_file_endpoints_keys
        remove_file_endpoints_recorded)
qed

lemma remove_file_endpoints_path: "path (remove_file_endpoints fp cl) = path cl"
  by (simp add: remove_file_endpoints_def split: option.splits)

lemma fold_remove_consistent:
  "sources_consistent cl \<Longrightarrow>
   sources_consistent (fold (\<lambda>fp c. if gone fp then remove_file_endpoints fp c else c) fps cl)"
  by (induction fps arbitrary: cl) (simp_all add: remove_file_endpoints_consistent)

lemma remove_where_consistent:
  "sources_consistent cl \<Longrightarrow> sources_consistent (remove_where gone cl)"
  by (simp add: remove_where_def fold_remove_consistent)

lemma declared_Document:
  "files ev fp = Some f \<Longrightarrow> content f = Document ds \<Longrightarrow> declared ev fp = decl_names ds"
  by (simp add: declared_def)

text \<open>
  One loading step keeps the invariant when the names the file declares are recorded for no
  other source; the name-set of a source grows by declared names of that file only.
\<close>

lemma load_file_consistent:
  assumes c: "sources_consistent cl"
    and l: "load_file ev fp cl = (None, cl')"
    and h: "\<And>g. g \<noteq> fp \<Longrightarrow> declared ev fp \<inter> recorded cl g = {}"
  shows "sources_consistent cl'
         \<and> (\<forall>g. recorded cl' g \<subseteq> recorded cl g \<union> (if g = fp then declared ev fp else {}))
         \<and> path cl' = path cl"
proof (cases "files ev fp")
  case None
  with l have "cl' = remove_file_endpoints fp cl"
    using load_file_fails[of ev fp cl] by simp
  with c show ?thesis
    by (simp add: remove_file_endpoints_consistent remove_file_endpoints_recorded
        remove_file_endpoints_path)
next
  case (Some f)
  show ?thesis
  proof (cases "map_of (mod_times cl) fp = Some (mtime f)")
    case True
    with Some l c show ?thesis by (simp add: load_file_unchanged)
  next
    case False
    show ?thesis
    proof (cases "content f")
      case Unreadable
      with Some False l show ?thesis by (simp add: load_file_def)
    next
      case Malformed
      with Some False l have "cl' = remove_file_endpoints fp cl"
        using load_file_fails[of ev fp cl] by auto
      with c show ?thesis
        by (simp add: remove_file_endpoints_consistent remove_file_endpoints_recorded
            remove_file_endpoints_path)
    next
      case (Document ds)
      from load_file_Document[OF Some False Document l] obtain eps where
        ld: "load_decls fp ds (endpoints cl) {} = (None, eps, decl_names ds)"
        and cl': "cl' = cl\<lparr>endpoints := del_names (recorded cl fp - decl_names ds) eps,
              file_endpoints := AList.update fp (decl_names ds) (file_endpoints cl),
              mod_times := AList.update fp (mtime f) (mod_times cl)\<rparr>"
        by blast
      define N where "N = decl_names ds"
      from c have d: "distinct (map fst (endpoints cl))" "distinct (map fst (file_endpoints cl))"
        and k: "\<And>n. n \<in> fst ` set (endpoints cl) \<longleftrightarrow> (\<exists>f. n \<in> recorded cl f)"
        and x: "\<And>f g. f \<noteq> g \<Longrightarrow> recorded cl f \<inter> recorded cl g = {}"
        by (simp_all add: sources_consistent_iff)
      from load_decls_keys[OF ld] d have
        ke: "fst ` set eps = fst ` set (endpoints cl) \<union> N" and de: "distinct (map fst eps)"
        by (simp_all add: N_def)
      have rec: "\<And>g. recorded cl' g = (if g = fp then N else recorded cl g)"
        by (simp add: cl' recorded_def update_conv' N_def)
      have hN: "\<And>g. g \<noteq> fp \<Longrightarrow> N \<inter> recorded cl g = {}"
        using h declared_Document[OF Some Document] by (simp add: N_def)
      have keys: "fst ` set (endpoints cl') = (fst ` set (endpoints cl) \<union> N) - (recorded cl fp - N)"
        by (simp add: cl' keys_del_names ke N_def)
      have 1: "distinct (map fst (endpoints cl'))"
        by (simp add: cl' distinct_del_names de)
      have 2: "distinct (map fst (file_endpoints cl'))"
        by (simp add: cl' distinct_update d)
      have 3: "\<And>n. n \<in> fst ` set (endpoints cl') \<longleftrightarrow> (\<exists>g. n \<in> recorded cl' g)"
      proof
        fix n
        assume "n \<in> fst ` set (endpoints cl')"
        then have n: "n \<in> fst ` set (endpoints cl) \<or> n \<in> N" "n \<notin> recorded cl fp \<or> n \<in> N"
          using keys by auto
        show "\<exists>g. n \<in> recorded cl' g"
        proof (cases "n \<in> N")
          case True
          then have "n \<in> recorded cl' fp" by (simp add: rec)
          then show ?thesis ..
        next
          case False
          with n k obtain g where g: "n \<in> recorded cl g" "n \<notin> recorded cl fp" by blast
          then have "g \<noteq> fp" by blast
          with g have "n \<in> recorded cl' g" by (simp add: rec)
          then show ?thesis ..
        qed
      next
        fix n
        assume "\<exists>g. n \<in> recorded cl' g"
        then obtain g where g: "n \<in> recorded cl' g" ..
        show "n \<in> fst ` set (endpoints cl')"
        proof (cases "g = fp")
          case True
          with g have "n \<in> N" by (simp add: rec)
          then show ?thesis using keys by blast
        next
          case False
          with g have r: "n \<in> recorded cl g" by (simp add: rec)
          with k have "n \<in> fst ` set (endpoints cl)" by blast
          moreover from r False x[of g fp] have "n \<notin> recorded cl fp" by blast
          ultimately show ?thesis using keys by blast
        qed
      qed
      have 4: "\<And>f g. f \<noteq> g \<Longrightarrow> recorded cl' f \<inter> recorded cl' g = {}"
        using x hN by (auto simp: rec)
      have 5: "\<forall>g. recorded cl' g \<subseteq> recorded cl g \<union> (if g = fp then declared ev fp else {})"
        using declared_Document[OF Some Document] by (auto simp: rec N_def)
      have 6: "path cl' = path cl" by (simp add: cl')
      from 1 2 3 4 5 6 show ?thesis by (simp add: sources_consistent_iff)
    qed
  qed
qed

lemma refresh_file_consistent:
  assumes c: "sources_consistent cl"
    and l: "refresh_file ev fp cl = (None, cl')"
    and h: "\<And>g. g \<noteq> fp \<Longrightarrow> declared ev fp \<inter> recorded cl g = {}"
  shows "sources_consistent cl'
         \<and> (\<forall>g. recorded cl' g \<subseteq> recorded cl g \<union> (if g = fp then declared ev fp else {}))
         \<and> path cl' = path cl"
proof (cases "load_file ev fp cl = (None, cl')")
  case True
  from load_file_consistent[OF c True h] show ?thesis by simp
next
  case False
  with l have "cl' = cl" by (auto simp: refresh_file_def split: option.splits if_splits)
  with c show ?thesis by simp
qed

lemma for_files_consistent:
  assumes step: "\<And>fp c c'. sources_consistent c \<Longrightarrow> step fp c = (None, c') \<Longrightarrow>
      (\<And>g. g \<noteq> fp \<Longrightarrow> declared ev fp \<inter> recorded c g = {}) \<Longrightarrow>
      sources_consistent c'
      \<and> (\<forall>g. recorded c' g \<subseteq> recorded c g \<union> (if g = fp then declared ev fp else {}))
      \<and> path c' = path c"
  shows "for_files step fps cl = (None, cl') \<Longrightarrow> sources_consistent cl \<Longrightarrow>
    (\<And>fp g. fp \<in> set fps \<Longrightarrow> g \<noteq> fp \<Longrightarrow> declared ev fp \<inter> recorded cl g = {}) \<Longrightarrow>
    (\<And>fp g. fp \<in> set fps \<Longrightarrow> g \<in> set fps \<Longrightarrow> g \<noteq> fp \<Longrightarrow>
       declared ev fp \<inter> declared ev g = {}) \<Longrightarrow>
    sources_consistent cl' \<and> path cl' = path cl"
proof (induction fps arbitrary: cl)
  case Nil
  then show ?case by simp
next
  case (Cons fp fps)
  obtain e c where s: "step fp cl = (e, c)" by (cases "step fp cl")
  with Cons(2) have e: "e = None" and r: "for_files step fps c = (None, cl')"
    by (auto split: option.splits)
  from s e have s': "step fp cl = (None, c)" by simp
  have "\<And>g. g \<noteq> fp \<Longrightarrow> declared ev fp \<inter> recorded cl g = {}"
    using Cons(4)[of fp] by simp
  from step[OF Cons(3) s' this] have
    c: "sources_consistent c"
    and g: "\<And>g. recorded c g \<subseteq> recorded cl g \<union> (if g = fp then declared ev fp else {})"
    and p: "path c = path cl"
    by simp_all
  have a: "\<And>fp' g. fp' \<in> set fps \<Longrightarrow> g \<noteq> fp' \<Longrightarrow> declared ev fp' \<inter> recorded c g = {}"
  proof -
    fix fp' g
    assume m: "fp' \<in> set fps" and ne: "g \<noteq> fp'"
    have 1: "declared ev fp' \<inter> recorded cl g = {}"
      using Cons(4)[of fp' g] m ne by simp
    have 2: "g = fp \<Longrightarrow> declared ev fp' \<inter> declared ev fp = {}"
      using Cons(5)[of fp' fp] m ne by simp
    from 1 2 g[of g] show "declared ev fp' \<inter> recorded c g = {}"
      by (cases "g = fp") auto
  qed
  have b: "\<And>fp' g. fp' \<in> set fps \<Longrightarrow> g \<in> set fps \<Longrightarrow> g \<noteq> fp' \<Longrightarrow>
       declared ev fp' \<inter> declared ev g = {}"
    using Cons(5) by simp
  from Cons(1)[OF r c a b] p show ?case by simp
qed

lemma no_clash_recorded:
  assumes "no_clash ev cl" "fp \<in> set (config_files ev (path cl))" "g \<noteq> fp"
  shows "declared ev fp \<inter> recorded cl g = {}"
proof (cases "g \<in> fst ` set (file_endpoints cl)")
  case True
  with assms show ?thesis
    unfolding no_clash_def Let_def list_all_iff by auto
next
  case False
  then have "map_of (file_endpoints cl) g = None" by (simp add: map_of_eq_None_iff)
  then show ?thesis by (simp add: recorded_def)
qed

lemma no_clash_declared:
  assumes "no_clash ev cl" "fp \<in> set (config_files ev (path cl))"
    "g \<in> set (config_files ev (path cl))" "g \<noteq> fp"
  shows "declared ev fp \<inter> declared ev g = {}"
  using assms unfolding no_clash_def Let_def list_all_iff by auto

lemma new_loader_consistent: "sources_consistent (new_loader p)"
  by (simp add: sources_consistent_def new_loader_def attributed_def exclusive_def)

lemma load_configs_consistent:
  assumes "sources_consistent cl" "no_clash ev cl" "load_configs ev cl = (None, cl')"
  shows "sources_consistent cl'"
proof -
  obtain e c where f: "for_files (load_file ev) (config_files ev (path cl)) cl = (e, c)"
    by (cases "for_files (load_file ev) (config_files ev (path cl)) cl")
  with assms(3) have e: "e = None"
    and c: "cl' = remove_where (\<lambda>fp. fp \<notin> set (config_files ev (path cl))) c"
    by (auto simp: load_configs_def Let_def split: option.splits)
  from f e have "for_files (load_file ev) (config_files ev (path cl)) cl = (None, c)" by simp
  then have "sources_consistent c \<and> path c = path cl"
    using assms(1)
  proof (rule for_files_consistent[rotated])
    show "\<And>fp g. fp \<in> set (config_files ev (path cl)) \<Longrightarrow> g \<noteq> fp \<Longrightarrow>
        declared ev fp \<inter> recorded cl g = {}"
      using no_clash_recorded[OF assms(2)] .
    show "\<And>fp g. fp \<in> set (config_files ev (path cl)) \<Longrightarrow>
        g \<in> set (config_files ev (path cl)) \<Longrightarrow> g \<noteq> fp \<Longrightarrow>
        declared ev fp \<inter> declared ev g = {}"
      using no_clash_declared[OF assms(2)] .
    show "\<And>fp c c'. sources_consistent c \<Longrightarrow> load_file ev fp c = (None, c') \<Longrightarrow>
        (\<And>g. g \<noteq> fp \<Longrightarrow> declared ev fp \<inter> recorded c g = {}) \<Longrightarrow>
        sources_consistent c'
        \<and> (\<forall>g. recorded c' g \<subseteq> recorded c g \<union> (if g = fp then declared ev fp else {}))
        \<and> path c' = path c"
      by (rule load_file_consistent)
  qed
  with c show ?thesis by (simp add: remove_where_consistent)
qed

lemma refresh_consistent:
  assumes "sources_consistent cl" "no_clash ev cl" "refresh ev cl = (None, cl')"
  shows "sources_consistent cl'"
proof -
  obtain e c where f: "for_files (refresh_file ev) (config_files ev (path cl)) cl = (e, c)"
    by (cases "for_files (refresh_file ev) (config_files ev (path cl)) cl")
  with assms(3) have e: "e = None"
    and c: "cl' = remove_where
              (\<lambda>fp. fp \<notin> set (config_files ev (path cl)) \<or> files ev fp = None) c"
    by (auto simp: refresh_def Let_def split: option.splits)
  from f e have "for_files (refresh_file ev) (config_files ev (path cl)) cl = (None, c)" by simp
  then have "sources_consistent c \<and> path c = path cl"
    using assms(1)
  proof (rule for_files_consistent[rotated])
    show "\<And>fp g. fp \<in> set (config_files ev (path cl)) \<Longrightarrow> g \<noteq> fp \<Longrightarrow>
        declared ev fp \<inter> recorded cl g = {}"
      using no_clash_recorded[OF assms(2)] .
    show "\<And>fp g. fp \<in> set (config_files ev (path cl)) \<Longrightarrow>
        g \<in> set (config_files ev (path cl)) \<Longrightarrow> g \<noteq> fp \<Longrightarrow>
        declared ev fp \<inter> declared ev g = {}"
      using no_clash_declared[OF assms(2)] .
    show "\<And>fp c c'. sources_consistent c \<Longrightarrow> refresh_file ev fp c = (None, c') \<Longrightarrow>
        (\<And>g. g \<noteq> fp \<Longrightarrow> declared ev fp \<inter> recorded c g = {}) \<Longrightarrow>
        sources_consistent c'
        \<and> (\<forall>g. recorded c' g \<subseteq> recorded c g \<union> (if g = fp then declared ev fp else {}))
        \<and> path c' = path c"
      by (rule refresh_file_consistent)
  qed
  with c show ?thesis by (simp add: remove_where_consistent)
qed

lemma consistent_one_source:
  assumes "sources_consistent cl" "n \<in> fst ` set (endpoints cl)"
  shows "\<exists>!f. n \<in> recorded cl f"
proof -
  from assms have "\<exists>f. n \<in> recorded cl f"
    and "\<And>f g. f \<noteq> g \<Longrightarrow> recorded cl f \<inter> recorded cl g = {}"
    by (simp_all add: sources_consistent_iff)
  then show ?thesis by blast
qed

text \<open>
  C5, as the code has it. The loader starts consistent, and a load or a refresh that returns
  keeps it consistent, provided no endpoint name is shared between two sources (declared by two
  files of the enumeration, or declared by one and recorded for another): the names attributed
  to the sources are then exactly the keys of the endpoint dict, and each of them is attributed
  to exactly one source.
\<close>

theorem sources_consistent_kept:
  "sources_consistent (new_loader p)
   \<and> (sources_consistent cl \<and> no_clash ev cl \<and> load_configs ev cl = (None, cl') \<longrightarrow>
        sources_consistent cl')
   \<and> (sources_consistent cl \<and> no_clash ev cl \<and> refresh ev cl = (None, cl') \<longrightarrow>
        sources_consistent cl')
   \<and> (sources_consistent cl \<longrightarrow>
        fst ` set (endpoints cl) = attributed cl
        \<and> (\<forall>n. n \<in> fst ` set (endpoints cl) \<longrightarrow> (\<exists>!f. n \<in> recorded cl f)))"
proof (intro conjI impI allI)
  show "sources_consistent (new_loader p)" by (rule new_loader_consistent)
next
  assume "sources_consistent cl \<and> no_clash ev cl \<and> load_configs ev cl = (None, cl')"
  then show "sources_consistent cl'" using load_configs_consistent by blast
next
  assume "sources_consistent cl \<and> no_clash ev cl \<and> refresh ev cl = (None, cl')"
  then show "sources_consistent cl'" using refresh_consistent by blast
next
  assume "sources_consistent cl"
  then show "fst ` set (endpoints cl) = attributed cl" by (simp add: sources_consistent_def)
next
  fix n
  assume "sources_consistent cl" "n \<in> fst ` set (endpoints cl)"
  then show "\<exists>!f. n \<in> recorded cl f" by (rule consistent_one_source)
qed

lemma ex_init:
  "init_loader ex_dir ''conf'' =
     (None, \<lparr>path = ''conf'',
       endpoints =
        [(''A'', ex_endpoint ''A'' ''http://svc1.example.com/health'' ''conf/one.yaml''
                  ''svc1.example.com'' \<lparr>up = 0, total = 0\<rparr>),
         (''B'', ex_endpoint ''B'' ''http://svc2.example.com/health'' ''conf/two.yaml''
                  ''svc2.example.com'' \<lparr>up = 0, total = 0\<rparr>)],
       file_endpoints = [(''conf/one.yaml'', {''A''}), (''conf/two.yaml'', {''B''})],
       mod_times = [(''conf/one.yaml'', 1), (''conf/two.yaml'', 1)]\<rparr>)"
  by (simp add: ex_defs2 loader_defs)

lemma ex_no_clash: "no_clash ex_dir (new_loader ''conf'')"
  by (simp add: no_clash_def ex_defs2 loader_defs declared_def decl_names_def
      List.map_filter_def)

lemma ex_no_clash_one: "no_clash ex_dir_one ex_loader"
  by (simp add: no_clash_def ex_defs2 loader_defs declared_def decl_names_def
      List.map_filter_def recorded_def)

lemma ex_loader_consistent: "sources_consistent ex_loader"
  by (auto simp: sources_consistent_def attributed_def exclusive_def ex_defs)

theorem sources_consistent_kept_witness:
  "sources_consistent (new_loader ''conf'') \<and> no_clash ex_dir (new_loader ''conf'')
   \<and> fst (load_configs ex_dir (new_loader ''conf'')) = None
   \<and> sources_consistent (snd (load_configs ex_dir (new_loader ''conf'')))
   \<and> sources_consistent ex_loader \<and> no_clash ex_dir_one ex_loader
   \<and> fst (refresh ex_dir_one ex_loader) = None
   \<and> sources_consistent (snd (refresh ex_dir_one ex_loader))
   \<and> attributed (snd (refresh ex_dir_one ex_loader)) = {''A''}"
proof -
  have l: "load_configs ex_dir (new_loader ''conf'')
           = (None, snd (load_configs ex_dir (new_loader ''conf'')))"
    using ex_init by (simp add: init_loader_def)
  have r: "refresh ex_dir_one ex_loader = (None, snd (refresh ex_dir_one ex_loader))"
    using ex_refresh_one by simp
  have a: "attributed (snd (refresh ex_dir_one ex_loader)) = {''A''}"
    by (simp add: ex_refresh_one attributed_def)
  have n: "sources_consistent (new_loader ''conf'')"
    using sources_consistent_kept [of "''conf''"] by blast
  have c1: "sources_consistent (snd (load_configs ex_dir (new_loader ''conf'')))"
    using sources_consistent_kept
      [of "''conf''" "new_loader ''conf''" ex_dir "snd (load_configs ex_dir (new_loader ''conf''))"]
      n ex_no_clash l
    by blast
  have c2: "sources_consistent (snd (refresh ex_dir_one ex_loader))"
    using sources_consistent_kept
      [of "''conf''" ex_loader ex_dir_one "snd (refresh ex_dir_one ex_loader)"]
      ex_loader_consistent ex_no_clash_one r
    by blast
  have f: "fst (load_configs ex_dir (new_loader ''conf'')) = None"
    "fst (refresh ex_dir_one ex_loader) = None"
    using ex_init ex_refresh_one by (simp_all add: init_loader_def)
  from n c1 c2 f a ex_no_clash ex_no_clash_one ex_loader_consistent show ?thesis
    by blast
qed

lemma ex_init_same_name:
  "init_loader ex_dir_same_name ''conf'' =
     (None, \<lparr>path = ''conf'',
       endpoints =
        [(''A'', ex_endpoint ''A'' ''http://svc1.example.com/health'' ''conf/two.yaml''
                  ''svc1.example.com'' \<lparr>up = 0, total = 0\<rparr>)],
       file_endpoints = [(''conf/one.yaml'', {''A''}), (''conf/two.yaml'', {''A''})],
       mod_times = [(''conf/one.yaml'', 1), (''conf/two.yaml'', 1)]\<rparr>)"
  by (simp add: ex_defs2 loader_defs)

text \<open>
  Two files declare the name \<^verbatim>\<open>A\<close>: after the initial load the name is in the name-sets of
  both sources, while the endpoint dict holds the endpoint of the file loaded last.
\<close>

theorem same_name_two_sources:
  "fst (init_loader ex_dir_same_name ''conf'') = None
   \<and> file_endpoints (snd (init_loader ex_dir_same_name ''conf''))
       = [(''conf/one.yaml'', {''A''}), (''conf/two.yaml'', {''A''})]
   \<and> \<not> exclusive (file_endpoints (snd (init_loader ex_dir_same_name ''conf'')))
   \<and> \<not> sources_consistent (snd (init_loader ex_dir_same_name ''conf''))"
  by (simp add: ex_init_same_name sources_consistent_def exclusive_def)

end
